theory Spec2Isabelle
  imports Complex_Main
begin

chapter \<open>Model of the Notion source connector\<close>

section \<open>Python values and exceptions\<close>

text \<open>
  The connector handles decoded JSON: \<open>None\<close>, booleans, numbers, strings, lists and
  dictionaries with string keys. A dictionary is the list of its items (keys distinct,
  as in a Python \<open>dict\<close>); floats are idealised as reals.
\<close>

datatype pyval =
    PNone
  | PBool bool
  | PInt int
  | PFloat real
  | PStr string
  | PList "pyval list"
  | PDict "(string \<times> pyval) list"

text \<open>Python's truth test (\<open>if v\<close>, \<open>not v\<close>).\<close>

fun truthy :: "pyval \<Rightarrow> bool" where
  "truthy PNone = False"
| "truthy (PBool b) = b"
| "truthy (PInt i) = (i \<noteq> 0)"
| "truthy (PFloat r) = (r \<noteq> 0)"
| "truthy (PStr s) = (s \<noteq> [])"
| "truthy (PList xs) = (xs \<noteq> [])"
| "truthy (PDict d) = (d \<noteq> [])"

text \<open>\<open>d.get(k)\<close> and \<open>d.get(k, default)\<close>.\<close>

definition dict_get :: "(string \<times> pyval) list \<Rightarrow> string \<Rightarrow> pyval" where
  "dict_get d k = (case map_of d k of None \<Rightarrow> PNone | Some v \<Rightarrow> v)"

definition dict_get_default :: "(string \<times> pyval) list \<Rightarrow> string \<Rightarrow> pyval \<Rightarrow> pyval" where
  "dict_get_default d k dflt = (case map_of d k of None \<Rightarrow> dflt | Some v \<Rightarrow> v)"

text \<open>\<open>str(n)\<close> of a Python integer, in decimal.\<close>

definition digit_char :: "nat \<Rightarrow> char" where
  "digit_char d = char_of (48 + d)"

function str_nat :: "nat \<Rightarrow> string" where
  "str_nat n = (if n < 10 then [digit_char n] else str_nat (n div 10) @ [digit_char (n mod 10)])"
  by pat_completeness auto
termination
  by (relation "measure id") auto

definition str_int :: "int \<Rightarrow> string" where
  "str_int i = (if i < 0 then CHR ''-'' # str_nat (nat (- i)) else str_nat (nat i))"

text \<open>
  \<open>str(v)\<close>, as an f-string formats a value. The text of a float or of a container
  is Python's \<open>repr\<close>, which is not part of the repository: it is the parameter
  \<open>repr\<close>.
\<close>

fun py_str :: "(pyval \<Rightarrow> string) \<Rightarrow> pyval \<Rightarrow> string" where
  "py_str repr PNone = ''None''"
| "py_str repr (PBool b) = (if b then ''True'' else ''False'')"
| "py_str repr (PInt i) = str_int i"
| "py_str repr (PStr s) = s"
| "py_str repr v = repr v"

text \<open>\<open>NotionAPIError\<close> of utils.py: the fields set by \<open>__init__\<close>.\<close>

record notion_api_error =
  err_status_code :: int
  err_code :: string
  err_message :: string
  err_request_id :: "string option"

text \<open>
  The exceptions that occur. Those of the \<open>requests\<close> library carry their text;
  \<open>Timeout\<close>, \<open>ConnectionError\<close>, \<open>HTTPError\<close> and \<open>JSONDecodeError\<close> are
  subclasses of \<open>RequestException\<close>, and \<open>OtherRequestException\<close> stands for its
  remaining subclasses. \<open>OtherException\<close> is any other subclass of \<open>Exception\<close>.
\<close>

datatype exn =
    Timeout string
  | ConnectionError string
  | HTTPError string
  | JSONDecodeError string
  | OtherRequestException string
  | NotionAPIError notion_api_error
  | NotionConnectionError string
  | AttributeError string
  | TypeError string
  | ValueError string
  | KeyError string
  | OverflowError string
  | OtherException string


text \<open>\<open>NotionAPIError._format_message\<close>.\<close>

definition format_message :: "notion_api_error \<Rightarrow> string" where
  "format_message e =
     (let base = ''['' @ str_int (err_status_code e) @ ''] '' @ err_code e @ '': '' @ err_message e
      in case err_request_id e of
           None \<Rightarrow> base
         | Some rid \<Rightarrow> if rid \<noteq> [] then base @ '' (Request ID: '' @ rid @ '')'' else base)"

text \<open>\<open>str(e)\<close> of an exception.\<close>

fun exn_str :: "exn \<Rightarrow> string" where
  "exn_str (Timeout m) = m"
| "exn_str (ConnectionError m) = m"
| "exn_str (HTTPError m) = m"
| "exn_str (JSONDecodeError m) = m"
| "exn_str (OtherRequestException m) = m"
| "exn_str (NotionAPIError e) = format_message e"
| "exn_str (NotionConnectionError m) = m"
| "exn_str (AttributeError m) = m"
| "exn_str (TypeError m) = m"
| "exn_str (ValueError m) = m"
| "exn_str (KeyError m) = m"
| "exn_str (OverflowError m) = m"
| "exn_str (OtherException m) = m"

section \<open>Retry handling (client.py, utils.py)\<close>

text \<open>
  \<open>RetryHandler.RETRYABLE_STATUS_CODES\<close> of client.py and
  \<open>NotionAPIError.RETRYABLE_STATUS_CODES\<close> of utils.py are two separate class
  constants. HTTP status codes are Python integers.
\<close>

definition RetryHandler_RETRYABLE_STATUS_CODES :: "int set" where
  "RetryHandler_RETRYABLE_STATUS_CODES = {429, 500, 502, 503, 504}"

definition NotionAPIError_RETRYABLE_STATUS_CODES :: "int set" where
  "NotionAPIError_RETRYABLE_STATUS_CODES = {409, 429, 500, 502, 503, 504}"

text \<open>
  What the connector reads of a \<open>requests.Response\<close>: the status, the body text, the
  outcome of \<open>response.json()\<close> (the decoded body, or the text of the
  \<open>JSONDecodeError\<close> it raises) and the text of the \<open>HTTPError\<close> that
  \<open>raise_for_status()\<close> raises for a 4xx or 5xx status.
\<close>

record response =
  status_code :: int
  text_body :: string
  json :: "string + pyval"
  http_error_text :: string

definition should_retry :: "response \<Rightarrow> bool" where
  "should_retry resp \<longleftrightarrow> status_code resp \<in> RetryHandler_RETRYABLE_STATUS_CODES"

definition is_retryable :: "notion_api_error \<Rightarrow> bool" where
  "is_retryable e \<longleftrightarrow> err_status_code e \<in> NotionAPIError_RETRYABLE_STATUS_CODES"

text \<open>
  \<open>RetryHandler\<close>: the fields set by \<open>__init__\<close>. Delays are Python floats,
  idealised as reals: a product with a power of two and \<open>min\<close> are exact on finite
  doubles. The attempt number is 0-indexed, a natural number, and \<open>2 ** attempt\<close> is
  an exact Python integer; multiplying the float \<open>base_delay\<close> by it first converts it
  to a float, which raises \<open>OverflowError\<close> when it is beyond the range of a double,
  that is from \<open>2 ** 1024\<close> on.
\<close>

record retry_handler =
  max_retries :: int
  base_delay :: real
  max_delay :: real

text \<open>The float that Python makes of the integer \<open>2 ** n\<close>.\<close>

definition float_of_power_of_two :: "nat \<Rightarrow> exn + real" where
  "float_of_power_of_two n =
     (if n < 1024 then Inr (2 ^ n)
      else Inl (OverflowError ''int too large to convert to float''))"

definition calculate_delay :: "retry_handler \<Rightarrow> nat \<Rightarrow> real option \<Rightarrow> exn + real" where
  "calculate_delay h attempt retry_after =
     (case (case retry_after of
              Some r \<Rightarrow> Inr r
            | None \<Rightarrow> (case float_of_power_of_two attempt of
                         Inl e \<Rightarrow> Inl e
                       | Inr p \<Rightarrow> Inr (base_delay h * p))) of
        Inl e \<Rightarrow> Inl e
      | Inr delay \<Rightarrow> Inr (min delay (max_delay h)))"

section \<open>Identifiers and nested lookup (utils.py)\<close>

text \<open>\<open>notion_id.replace("-", "")\<close> deletes every dash.\<close>

definition normalize_notion_id :: "string \<Rightarrow> string" where
  "normalize_notion_id notion_id = filter (\<lambda>c. c \<noteq> CHR ''-'') notion_id"

text \<open>The slices \<open>s[:8]\<close>, \<open>s[8:12]\<close>, ... of the f-string are \<open>take\<close> and \<open>drop\<close>.\<close>

definition format_notion_id :: "string \<Rightarrow> string" where
  "format_notion_id notion_id =
     (let clean_id = filter (\<lambda>c. c \<noteq> CHR ''-'') notion_id
      in if length clean_id = 32
         then take 8 clean_id @ ''-'' @ take 4 (drop 8 clean_id) @ ''-''
              @ take 4 (drop 12 clean_id) @ ''-'' @ take 4 (drop 16 clean_id) @ ''-''
              @ drop 20 clean_id
         else notion_id)"

text \<open>
  \<open>safe_get_nested(data, *keys, default)\<close>: the loop over the keys, with the value
  reached so far as \<open>current\<close>.
\<close>

fun safe_get_nested :: "pyval \<Rightarrow> string list \<Rightarrow> pyval \<Rightarrow> pyval" where
  "safe_get_nested current [] dflt = current"
| "safe_get_nested current (key # keys) dflt =
     (case current of
        PDict d \<Rightarrow>
          (let current' = dict_get d key
           in if current' = PNone then dflt else safe_get_nested current' keys dflt)
      | _ \<Rightarrow> dflt)"

text \<open>
  The plain walk along a key path, for comparison: \<open>None\<close> when a key is missing or a
  value on the way is not a dictionary, else the value found (which may be \<open>PNone\<close>).
\<close>

fun path_lookup :: "pyval \<Rightarrow> string list \<Rightarrow> pyval option" where
  "path_lookup v [] = Some v"
| "path_lookup v (key # keys) =
     (case v of
        PDict d \<Rightarrow> (case map_of d key of None \<Rightarrow> None | Some w \<Rightarrow> path_lookup w keys)
      | _ \<Rightarrow> None)"

section \<open>Configuration (config.py)\<close>

text \<open>
  The credential union. Pydantic admits the two variants only; \<open>OtherCredentials\<close>
  stands for any other object, the case of the last branch of \<open>get_token\<close>.
\<close>

datatype credentials =
    TokenCredentials (token: string)
  | OAuth2Credentials (client_id: string) (client_secret: string) (access_token: string)
      (refresh_token: "string option")
  | OtherCredentials

record notion_config =
  credentials :: credentials
  api_version :: string
  cfg_max_retries :: int
  base_retry_delay :: real
  max_retry_delay :: real
  page_size :: int
  request_timeout :: int
  fetch_blocks :: bool
  max_block_depth :: int

definition get_token :: "notion_config \<Rightarrow> exn + string" where
  "get_token cfg =
     (case credentials cfg of
        TokenCredentials t \<Rightarrow> Inr t
      | OAuth2Credentials cid sec acc rt \<Rightarrow> Inr acc
      | OtherCredentials \<Rightarrow> Inl (ValueError ''Unknown credential type''))"

text \<open>The dictionary literal of \<open>get_auth_headers\<close>, as the list of its items.\<close>

definition get_auth_headers :: "notion_config \<Rightarrow> exn + (string \<times> string) list" where
  "get_auth_headers cfg =
     (case get_token cfg of
        Inl e \<Rightarrow> Inl e
      | Inr t \<Rightarrow> Inr [(''Authorization'', ''Bearer '' @ t),
                     (''Notion-Version'', api_version cfg),
                     (''Content-Type'', ''application/json'')])"

section \<open>Pagination (client.py)\<close>

text \<open>\<open>d[k] = v\<close>: an existing key keeps its place, a new key goes last.\<close>

fun dict_set :: "(string \<times> pyval) list \<Rightarrow> string \<Rightarrow> pyval \<Rightarrow> (string \<times> pyval) list" where
  "dict_set [] k v = [(k, v)]"
| "dict_set ((k', v') # d) k v = (if k' = k then (k, v) # d else (k', v') # dict_set d k v)"

text \<open>\<open>{**a, **b}\<close>.\<close>

definition dict_merge ::
  "(string \<times> pyval) list \<Rightarrow> (string \<times> pyval) list \<Rightarrow> (string \<times> pyval) list" where
  "dict_merge a b = fold (\<lambda>(k, v) d. dict_set d k v) b a"

text \<open>The arguments that \<open>_paginate\<close> passes to \<open>_request\<close>.\<close>

record request =
  req_method :: string
  req_endpoint :: string
  req_params :: "(string \<times> pyval) list option"
  req_json :: "(string \<times> pyval) list option"

text \<open>
  \<open>len(results)\<close> and \<open>for item in results\<close>: a list gives its items, a string its
  characters, a dictionary its keys; \<open>None\<close>, booleans and numbers raise \<open>TypeError\<close>.
\<close>

fun py_iter :: "pyval \<Rightarrow> exn + pyval list" where
  "py_iter (PList xs) = Inr xs"
| "py_iter (PStr s) = Inr (map (\<lambda>c. PStr [c]) s)"
| "py_iter (PDict d) = Inr (map (\<lambda>kv. PStr (fst kv)) d)"
| "py_iter v = Inl (TypeError ''object is not iterable'')"

text \<open>
  What a run of the generator does, in order: the calls of \<open>_request\<close> and the items
  yielded. The run ends by returning, by raising, or (in the model) waiting for a
  response that lies beyond the given sequence of responses.
\<close>

datatype event = Request request | Yield pyval

datatype outcome = Returned | Raised exn | AwaitingResponse

definition page_request ::
  "int \<Rightarrow> string \<Rightarrow> string \<Rightarrow> (string \<times> pyval) list option \<Rightarrow> (string \<times> pyval) list option
   \<Rightarrow> pyval \<Rightarrow> request" where
  "page_request page_sz endpoint method body params start_cursor =
     (let pagination_params =
            (if truthy start_cursor
             then dict_set [(''page_size'', PInt page_sz)] ''start_cursor'' start_cursor
             else [(''page_size'', PInt page_sz)])
      in if method = ''POST''
         then \<lparr>req_method = ''POST'', req_endpoint = endpoint, req_params = None,
               req_json = Some (dict_merge (case body of None \<Rightarrow> [] | Some b \<Rightarrow> b)
                                  pagination_params)\<rparr>
         else \<lparr>req_method = ''GET'', req_endpoint = endpoint,
               req_params = Some (dict_merge (case params of None \<Rightarrow> [] | Some q \<Rightarrow> q)
                                    pagination_params),
               req_json = None\<rparr>)"

text \<open>
  The \<open>while True\<close> loop of \<open>_paginate\<close>, entered with the current \<open>start_cursor\<close>.
  The service is given by the outcomes of the successive calls of \<open>_request\<close>: the
  decoded page, or the exception raised.
\<close>

fun paginate_from ::
  "int \<Rightarrow> string \<Rightarrow> string \<Rightarrow> (string \<times> pyval) list option \<Rightarrow> (string \<times> pyval) list option
   \<Rightarrow> pyval \<Rightarrow> (exn + pyval) list \<Rightarrow> event list \<times> outcome" where
  "paginate_from page_sz endpoint method body params start_cursor [] =
     ([Request (page_request page_sz endpoint method body params start_cursor)],
      AwaitingResponse)"
| "paginate_from page_sz endpoint method body params start_cursor (resp # resps) =
     (let req = Request (page_request page_sz endpoint method body params start_cursor)
      in case resp of
           Inl e \<Rightarrow> ([req], Raised e)
         | Inr (PDict d) \<Rightarrow>
             (case py_iter (dict_get_default d ''results'' (PList [])) of
                Inl e \<Rightarrow> ([req], Raised e)
              | Inr items \<Rightarrow>
                  if \<not> truthy (dict_get_default d ''has_more'' (PBool False))
                  then (req # map Yield items, Returned)
                  else if \<not> truthy (dict_get d ''next_cursor'')
                  then (req # map Yield items, Returned)
                  else (case paginate_from page_sz endpoint method body params
                               (dict_get d ''next_cursor'') resps of
                          (evs, out) \<Rightarrow> (req # map Yield items @ evs, out)))
         | Inr v \<Rightarrow> ([req], Raised (AttributeError ''object has no attribute get'')))"

definition paginate ::
  "int \<Rightarrow> string \<Rightarrow> string \<Rightarrow> (string \<times> pyval) list option \<Rightarrow> (string \<times> pyval) list option
   \<Rightarrow> (exn + pyval) list \<Rightarrow> event list \<times> outcome" where
  "paginate page_sz endpoint method body params resps =
     paginate_from page_sz endpoint method body params PNone resps"

text \<open>The items a run yields, and the start cursors of the requests it sends.\<close>

fun yielded :: "event list \<Rightarrow> pyval list" where
  "yielded [] = []"
| "yielded (Yield x # evs) = x # yielded evs"
| "yielded (Request r # evs) = yielded evs"

fun requested :: "event list \<Rightarrow> request list" where
  "requested [] = []"
| "requested (Yield x # evs) = requested evs"
| "requested (Request r # evs) = r # requested evs"

text \<open>
  A page shaped \<open>{results, has_more, next_cursor}\<close>, read as its three parts: the list
  of results, the flag, and the next cursor (absent when the key is missing or null).
\<close>

type_synonym page = "pyval list \<times> bool \<times> string option"

definition page_of :: "pyval \<Rightarrow> page option" where
  "page_of data =
     (case data of
        PDict d \<Rightarrow>
          (case (map_of d ''results'', map_of d ''has_more'') of
             (Some (PList rs), Some (PBool hm)) \<Rightarrow>
               (case map_of d ''next_cursor'' of
                  None \<Rightarrow> Some (rs, hm, None)
                | Some PNone \<Rightarrow> Some (rs, hm, None)
                | Some (PStr c) \<Rightarrow> Some (rs, hm, Some c)
                | Some v \<Rightarrow> None)
           | other \<Rightarrow> None)
      | v \<Rightarrow> None)"

text \<open>A page is followed by another when it reports more results and supplies a cursor.\<close>

fun has_next :: "page \<Rightarrow> bool" where
  "has_next (rs, hm, None) = False"
| "has_next (rs, hm, Some c) = (hm \<and> c \<noteq> [])"

fun page_results :: "page \<Rightarrow> pyval list" where
  "page_results (rs, hm, nc) = rs"

fun page_cursor :: "page \<Rightarrow> pyval" where
  "page_cursor (rs, hm, None) = PNone"
| "page_cursor (rs, hm, Some c) = PStr c"

section \<open>Recursive block fetch (client.py)\<close>

text \<open>
  \<open>list_block_children(parent_id)\<close> is given by what the generator yields for each
  parent id and the exception it raises at its end, if any.

  \<open>_fetch_recursive\<close> is the function of that name inside \<open>get_all_blocks\<close>; its
  \<open>for\<close> loop over the children is \<open>fetch_children\<close>, with the blocks still to come.
  The result is what is yielded, and the exception that ends the run early, if any.
  A block that is not a dictionary cannot be tagged (\<open>TypeError\<close>), and
  \<open>block["id"]\<close> of a block without an id raises \<open>KeyError\<close>.
\<close>

definition tag_block :: "(string \<times> pyval) list \<Rightarrow> int \<Rightarrow> pyval \<Rightarrow> (string \<times> pyval) list" where
  "tag_block block current_depth parent_id =
     dict_set (dict_set block ''_depth'' (PInt current_depth)) ''_parent_id'' parent_id"







section \<open>Incremental inclusion (streams.py, utils.py)\<close>










section \<open>Authentication (auth.py)\<close>

text \<open>\<open>AuthenticationResult\<close>; an absent optional field is \<open>PNone\<close>.\<close>

record authentication_result =
  success :: bool
  user_info :: pyval
  workspace_info :: pyval
  error :: pyval






section \<open>Connection check (connector.py)\<close>

text \<open>
  The \<open>connectionStatus\<close> part of the message that
  \<open>AirbyteMessage.connection_status\<close> builds; the message is left out when it is
  \<open>None\<close> or empty.
\<close>

record connection_status =
  status :: string
  message :: "string option"

definition connection_status_message :: "string \<Rightarrow> string option \<Rightarrow> connection_status" where
  "connection_status_message st msg =
     \<lparr>status = st,
      message = (case msg of None \<Rightarrow> None | Some m \<Rightarrow> if m = [] then None else Some m)\<rparr>"

text \<open>
  The body of the outer \<open>try\<close> of \<open>check\<close>. \<open>validated\<close> is the outcome of
  \<open>self.authenticator.validate()\<close> and \<open>probe\<close> that of
  \<open>list(self.client.list_users())\<close>, which is run only after a successful validation.
\<close>

definition check_try ::
  "(pyval \<Rightarrow> string) \<Rightarrow> exn + authentication_result \<Rightarrow> exn + pyval list
   \<Rightarrow> exn + connection_status" where
  "check_try repr validated probe =
     (case validated of
        Inl e \<Rightarrow> Inl e
      | Inr auth_result \<Rightarrow>
          if \<not> success auth_result
          then Inr (connection_status_message ''FAILED''
                      (Some (''Authentication failed: '' @ py_str repr (error auth_result))))
          else (case probe of
                  Inl (NotionAPIError e) \<Rightarrow>
                    if err_status_code e = 403
                    then Inr (connection_status_message ''FAILED''
                                (Some (''Integration does not have sufficient permissions. ''
                                       @ ''Please check the integration capabilities in Notion settings.'')))
                    else Inl (NotionAPIError e)
                | Inl e \<Rightarrow> Inl e
                | Inr users \<Rightarrow>
                    (case user_info auth_result of
                       PDict info \<Rightarrow>
                         Inr (connection_status_message ''SUCCEEDED''
                                (Some (''Connected to Notion workspace as ''
                                       @ py_str repr (dict_get_default info ''name''
                                                        (PStr ''Bot'')))))
                     | v \<Rightarrow> Inl (AttributeError ''object has no attribute get''))))"

text \<open>\<open>check\<close>: the three \<open>except\<close> clauses of the outer \<open>try\<close>.\<close>

definition check ::
  "(pyval \<Rightarrow> string) \<Rightarrow> exn + authentication_result \<Rightarrow> exn + pyval list
   \<Rightarrow> exn + connection_status" where
  "check repr validated probe =
     (case check_try repr validated probe of
        Inr msg \<Rightarrow> Inr msg
      | Inl (NotionConnectionError m) \<Rightarrow>
          Inr (connection_status_message ''FAILED'' (Some (exn_str (NotionConnectionError m))))
      | Inl (NotionAPIError e) \<Rightarrow>
          Inr (connection_status_message ''FAILED'' (Some (exn_str (NotionAPIError e))))
      | Inl e \<Rightarrow>
          Inr (connection_status_message ''FAILED'' (Some (''Unexpected error: '' @ exn_str e))))"

section \<open>Sample inputs\<close>

text \<open>
  Pages as the service sends them: a first page with more to come, a last page, and a
  page that reports more results but carries no cursor.
\<close>

definition sample_page_1 :: pyval where
  "sample_page_1 =
     PDict [(''object'', PStr ''list''), (''results'', PList [PStr ''u1'']),
            (''has_more'', PBool True), (''next_cursor'', PStr ''cursor-2'')]"

definition sample_page_2 :: pyval where
  "sample_page_2 =
     PDict [(''object'', PStr ''list''), (''results'', PList [PStr ''u2'', PStr ''u3'']),
            (''has_more'', PBool False), (''next_cursor'', PNone)]"

definition sample_page_no_cursor :: pyval where
  "sample_page_no_cursor =
     PDict [(''object'', PStr ''list''), (''results'', PList [PStr ''u4'']),
            (''has_more'', PBool True), (''next_cursor'', PNone)]"











chapter \<open>Properties\<close>

section \<open>Retry handling\<close>

text \<open>
  Claim C2. \<open>should_retry\<close> is true exactly for the statuses 429, 500, 502, 503 and
  504 (so it is false for 200, 400, 401, 403, 404 and 409); \<open>is_retryable\<close> is true
  exactly for 409, 429, 500, 502, 503 and 504; and a response and an error of the same
  status \<open>s\<close> are classified differently exactly when \<open>s\<close> is 409.
\<close>

theorem retry_classifications:
  "should_retry resp = (status_code resp \<in> {429, 500, 502, 503, 504})
   \<and> is_retryable e = (err_status_code e \<in> {409, 429, 500, 502, 503, 504})
   \<and> \<not> should_retry (resp\<lparr>status_code := 200\<rparr>) \<and> \<not> should_retry (resp\<lparr>status_code := 400\<rparr>)
   \<and> \<not> should_retry (resp\<lparr>status_code := 401\<rparr>) \<and> \<not> should_retry (resp\<lparr>status_code := 403\<rparr>)
   \<and> \<not> should_retry (resp\<lparr>status_code := 404\<rparr>) \<and> \<not> should_retry (resp\<lparr>status_code := 409\<rparr>)
   \<and> ((should_retry (resp\<lparr>status_code := s\<rparr>) \<noteq> is_retryable (e\<lparr>err_status_code := s\<rparr>))
        = (s = 409))"
  unfolding should_retry_def is_retryable_def RetryHandler_RETRYABLE_STATUS_CODES_def
    NotionAPIError_RETRYABLE_STATUS_CODES_def
  by auto

lemma calculate_delay_hint:
  "calculate_delay h attempt (Some r) = Inr (min r (max_delay h))"
  by (simp add: calculate_delay_def)

lemma calculate_delay_backoff:
  "calculate_delay h attempt None
     = (if attempt < 1024 then Inr (min (base_delay h * 2 ^ attempt) (max_delay h))
        else Inl (OverflowError ''int too large to convert to float''))"
  by (simp add: calculate_delay_def float_of_power_of_two_def)

text \<open>
  Claim C3, as stated, fails for attempt numbers from 1024 on: without a retry-after
  value, \<open>base_delay * (2 ** attempt)\<close> raises \<open>OverflowError\<close>.
\<close>

theorem calculate_delay_overflow_counterexample:
  "calculate_delay \<lparr>max_retries = 5, base_delay = 1, max_delay = 60\<rparr> 1024 None
     = Inl (OverflowError ''int too large to convert to float'')"
  by (simp add: calculate_delay_backoff)

text \<open>
  Claim C3, amended. For every \<open>base_delay\<close> and \<open>max_delay\<close>, \<open>calculate_delay\<close>
  returns \<open>min(retry_after, max_delay)\<close> when a retry-after value is supplied, at every
  attempt number, and \<open>min(base_delay * 2^attempt, max_delay)\<close> when it is not, at every
  0-indexed attempt number below 1024; so what it returns never exceeds \<open>max_delay\<close>.
  With base 1.0 and max 60.0 the attempts 0, 1, 2, 3 give 1.0, 2.0, 4.0, 8.0; with max
  10.0 attempt 10 gives 10.0; a hint of 30.0 gives 30.0 at every attempt and a hint of
  100.0 gives 60.0.
\<close>

theorem calculate_delay_capped_backoff:
  "calculate_delay h attempt (Some r) = Inr (min r (max_delay h))
   \<and> (attempt < 1024 \<longrightarrow>
        calculate_delay h attempt None = Inr (min (base_delay h * 2 ^ attempt) (max_delay h)))
   \<and> (calculate_delay h attempt retry_after = Inr d \<longrightarrow> d \<le> max_delay h)
   \<and> calculate_delay \<lparr>max_retries = 5, base_delay = 1, max_delay = 60\<rparr> 0 None = Inr 1
   \<and> calculate_delay \<lparr>max_retries = 5, base_delay = 1, max_delay = 60\<rparr> 1 None = Inr 2
   \<and> calculate_delay \<lparr>max_retries = 5, base_delay = 1, max_delay = 60\<rparr> 2 None = Inr 4
   \<and> calculate_delay \<lparr>max_retries = 5, base_delay = 1, max_delay = 60\<rparr> 3 None = Inr 8
   \<and> calculate_delay \<lparr>max_retries = 5, base_delay = 1, max_delay = 10\<rparr> 10 None = Inr 10
   \<and> calculate_delay \<lparr>max_retries = 5, base_delay = 1, max_delay = 60\<rparr> attempt (Some 30)
       = Inr 30
   \<and> calculate_delay \<lparr>max_retries = 5, base_delay = 1, max_delay = 60\<rparr> attempt (Some 100)
       = Inr 60"
proof -
  have "calculate_delay h attempt retry_after = Inr d \<longrightarrow> d \<le> max_delay h"
    by (cases retry_after)
      (auto simp add: calculate_delay_hint calculate_delay_backoff split: if_splits)
  then show ?thesis
    by (simp add: calculate_delay_hint calculate_delay_backoff)
qed

theorem calculate_delay_capped_backoff_witness:
  "(7::nat) < 1024
   \<and> calculate_delay \<lparr>max_retries = 5, base_delay = 1 / 2, max_delay = 60\<rparr> 7 None = Inr 60
   \<and> calculate_delay \<lparr>max_retries = 5, base_delay = 1 / 2, max_delay = 60\<rparr> 4 None = Inr 8
   \<and> calculate_delay \<lparr>max_retries = 5, base_delay = 1 / 2, max_delay = 60\<rparr> 4 (Some 3) = Inr 3
   \<and> (3::real) \<le> 60"
  using calculate_delay_capped_backoff
      [of "\<lparr>max_retries = 5, base_delay = 1 / 2, max_delay = 60\<rparr>" 7 3 None 60]
    calculate_delay_capped_backoff
      [of "\<lparr>max_retries = 5, base_delay = 1 / 2, max_delay = 60\<rparr>" 4 3 "Some 3" 3]
  by (simp add: calculate_delay_hint calculate_delay_backoff)

section \<open>Identifiers\<close>

lemma regroup_slices:
  "take 8 c @ take 4 (drop 8 c) @ take 4 (drop 12 c) @ take 4 (drop 16 c) @ drop 20 c = c"
proof -
  have a: "take 4 (drop 16 c) @ drop 20 c = drop 16 c"
    using append_take_drop_id [of 4 "drop 16 c"] by simp
  have b: "take 4 (drop 12 c) @ drop 16 c = drop 12 c"
    using append_take_drop_id [of 4 "drop 12 c"] by simp
  have d: "take 4 (drop 8 c) @ drop 12 c = drop 8 c"
    using append_take_drop_id [of 4 "drop 8 c"] by simp
  show ?thesis by (simp add: a b d)
qed

lemma filter_dashless:
  assumes "\<forall>ch \<in> set c. ch \<noteq> CHR ''-''"
  shows "filter (\<lambda>ch. ch \<noteq> CHR ''-'') (take n (drop m c)) = take n (drop m c)"
    and "filter (\<lambda>ch. ch \<noteq> CHR ''-'') (take n c) = take n c"
    and "filter (\<lambda>ch. ch \<noteq> CHR ''-'') (drop m c) = drop m c"
  using assms by (auto simp: filter_id_conv dest: in_set_takeD in_set_dropD)

lemma format_of_clean:
  assumes "length (normalize_notion_id x) = 32"
  shows "format_notion_id (normalize_notion_id x) =
           take 8 (normalize_notion_id x) @ ''-'' @ take 4 (drop 8 (normalize_notion_id x))
           @ ''-'' @ take 4 (drop 12 (normalize_notion_id x)) @ ''-''
           @ take 4 (drop 16 (normalize_notion_id x)) @ ''-'' @ drop 20 (normalize_notion_id x)"
    and "format_notion_id x = format_notion_id (normalize_notion_id x)"
  using assms by (simp_all add: format_notion_id_def normalize_notion_id_def Let_def)

lemma dash_positions:
  fixes c :: string
  assumes "length c = 32"
  defines "r \<equiv> take 8 c @ ''-'' @ take 4 (drop 8 c) @ ''-'' @ take 4 (drop 12 c) @ ''-''
           @ take 4 (drop 16 c) @ ''-'' @ drop 20 c"
  shows "length r = 36" and "r ! 8 = CHR ''-''" and "r ! 13 = CHR ''-''"
    and "r ! 18 = CHR ''-''" and "r ! 23 = CHR ''-''"
proof -
  show "length r = 36" using assms by simp
  have l8: "length (take 8 c) = 8" using assms by simp
  show "r ! 8 = CHR ''-''"
    unfolding r_def using nth_append_length [of "take 8 c" "CHR ''-''"] l8 by simp
  have l13: "length (take 8 c @ ''-'' @ take 4 (drop 8 c)) = 13" using assms by simp
  show "r ! 13 = CHR ''-''"
    using nth_append_length [of "take 8 c @ ''-'' @ take 4 (drop 8 c)" "CHR ''-''"] l13
    unfolding r_def by simp
  have l18: "length (take 8 c @ ''-'' @ take 4 (drop 8 c) @ ''-'' @ take 4 (drop 12 c)) = 18"
    using assms by simp
  show "r ! 18 = CHR ''-''"
    using nth_append_length
      [of "take 8 c @ ''-'' @ take 4 (drop 8 c) @ ''-'' @ take 4 (drop 12 c)" "CHR ''-''"] l18
    unfolding r_def by simp
  have l23: "length (take 8 c @ ''-'' @ take 4 (drop 8 c) @ ''-'' @ take 4 (drop 12 c) @ ''-''
           @ take 4 (drop 16 c)) = 23"
    using assms by simp
  show "r ! 23 = CHR ''-''"
    using nth_append_length
      [of "take 8 c @ ''-'' @ take 4 (drop 8 c) @ ''-'' @ take 4 (drop 12 c) @ ''-''
           @ take 4 (drop 16 c)" "CHR ''-''"] l23
    unfolding r_def by simp
qed

lemma format_dash_positions:
  assumes "length (normalize_notion_id x) = 32"
  shows "length (format_notion_id (normalize_notion_id x)) = 36"
    and "format_notion_id (normalize_notion_id x) ! 8 = CHR ''-''"
    and "format_notion_id (normalize_notion_id x) ! 13 = CHR ''-''"
    and "format_notion_id (normalize_notion_id x) ! 18 = CHR ''-''"
    and "format_notion_id (normalize_notion_id x) ! 23 = CHR ''-''"
  using dash_positions [OF assms] by (simp_all only: format_of_clean(1) [OF assms])

lemma normalize_format_clean:
  assumes "length (normalize_notion_id x) = 32"
  shows "normalize_notion_id (format_notion_id (normalize_notion_id x)) = normalize_notion_id x"
proof -
  let ?c = "normalize_notion_id x"
  have nd: "\<forall>ch \<in> set ?c. ch \<noteq> CHR ''-''"
    by (simp add: normalize_notion_id_def)
  have "normalize_notion_id (format_notion_id ?c)
      = take 8 ?c @ take 4 (drop 8 ?c) @ take 4 (drop 12 ?c) @ take 4 (drop 16 ?c) @ drop 20 ?c"
    using assms filter_dashless [OF nd]
    by (simp add: format_notion_id_def normalize_notion_id_def Let_def)
  then show ?thesis by (simp only: regroup_slices)
qed

text \<open>
  Claim C8. For every string \<open>x\<close> that has exactly 32 characters once its dashes are
  deleted (32 hex characters in particular), \<open>format_notion_id(normalize_notion_id(x))\<close>
  is the 8-4-4-4-12 grouping of those 32 characters: it is made of their slices joined
  by dashes, has 36 characters with the dashes at positions 8, 13, 18 and 23, and gives
  the same 32 characters back when normalised. It does not depend on where \<open>x\<close> carried
  dashes: any \<open>y\<close> with the same characters between the dashes gives the same result,
  and so does formatting \<open>x\<close> directly. For every input whose length without dashes is
  not 32, \<open>format_notion_id\<close> returns the input unchanged.
\<close>

theorem format_normalize_canonical:
  "(length (normalize_notion_id x) = 32 \<longrightarrow>
      format_notion_id (normalize_notion_id x) =
        take 8 (normalize_notion_id x) @ ''-'' @ take 4 (drop 8 (normalize_notion_id x))
        @ ''-'' @ take 4 (drop 12 (normalize_notion_id x)) @ ''-''
        @ take 4 (drop 16 (normalize_notion_id x)) @ ''-'' @ drop 20 (normalize_notion_id x)
      \<and> length (format_notion_id (normalize_notion_id x)) = 36
      \<and> format_notion_id (normalize_notion_id x) ! 8 = CHR ''-''
      \<and> format_notion_id (normalize_notion_id x) ! 13 = CHR ''-''
      \<and> format_notion_id (normalize_notion_id x) ! 18 = CHR ''-''
      \<and> format_notion_id (normalize_notion_id x) ! 23 = CHR ''-''
      \<and> normalize_notion_id (format_notion_id (normalize_notion_id x)) = normalize_notion_id x
      \<and> format_notion_id x = format_notion_id (normalize_notion_id x)
      \<and> (normalize_notion_id y = normalize_notion_id x \<longrightarrow>
           format_notion_id (normalize_notion_id y) = format_notion_id (normalize_notion_id x)))
   \<and> (length (normalize_notion_id x) \<noteq> 32 \<longrightarrow> format_notion_id x = x)"
proof -
  have other: "length (normalize_notion_id x) \<noteq> 32 \<longrightarrow> format_notion_id x = x"
    by (simp add: format_notion_id_def normalize_notion_id_def Let_def)
  have same: "normalize_notion_id y = normalize_notion_id x \<longrightarrow>
      format_notion_id (normalize_notion_id y) = format_notion_id (normalize_notion_id x)"
    by simp
  show ?thesis
    using format_of_clean [of x] format_dash_positions [of x] normalize_format_clean [of x]
      other same
    by blast
qed

theorem format_normalize_canonical_witness:
  "length (normalize_notion_id ''1-2345678123-41234-1234123456789abc'') = 32
   \<and> normalize_notion_id ''12345678-1234-1234-1234-123456789abc''
       = normalize_notion_id ''1-2345678123-41234-1234123456789abc''
   \<and> format_notion_id (normalize_notion_id ''1-2345678123-41234-1234123456789abc'')
       = ''12345678-1234-1234-1234-123456789abc''
   \<and> format_notion_id (normalize_notion_id ''12345678-1234-1234-1234-123456789abc'')
       = ''12345678-1234-1234-1234-123456789abc''
   \<and> length (normalize_notion_id ''abc-def'') \<noteq> 32
   \<and> format_notion_id ''abc-def'' = ''abc-def''"
  using format_normalize_canonical [of "''1-2345678123-41234-1234123456789abc''"
      "''12345678-1234-1234-1234-123456789abc''"]
    format_normalize_canonical [of "''abc-def''"]
  by (simp add: normalize_notion_id_def)

section \<open>Nested lookup\<close>

lemma path_lookup_PNone: "keys \<noteq> [] \<Longrightarrow> path_lookup PNone keys = None"
  by (cases keys) auto

lemma safe_get_nested_path_lookup:
  "keys \<noteq> [] \<Longrightarrow>
   safe_get_nested v keys dflt =
     (case path_lookup v keys of None \<Rightarrow> dflt | Some w \<Rightarrow> if w = PNone then dflt else w)"
proof (induction keys arbitrary: v)
  case Nil
  then show ?case by simp
next
  case (Cons k ks)
  show ?case
  proof (cases ks)
    case Nil
    then show ?thesis
      by (cases v) (auto simp: dict_get_def split: option.splits)
  next
    case (Cons a list)
    then have "ks \<noteq> []" by simp
    from Cons.IH [OF this] path_lookup_PNone [OF this] show ?thesis
      by (cases v) (auto simp: dict_get_def split: option.splits)
  qed
qed

text \<open>
  Claim C10. For every value \<open>data\<close> (a map in particular), every non-empty key sequence
  and every default, \<open>safe_get_nested\<close> returns the default when the walk along the
  keys breaks (a key is missing, or a value on the way is not a map) and also when the
  walk succeeds and finds an explicit null; otherwise it returns the value found. So a
  present key bound to null yields the default, and the result is null only if the
  default itself is null.
\<close>

theorem safe_get_nested_null_yields_default:
  "safe_get_nested data (key # keys) dflt =
     (case path_lookup data (key # keys) of
        None \<Rightarrow> dflt
      | Some w \<Rightarrow> if w = PNone then dflt else w)
   \<and> (path_lookup data (key # keys) = Some PNone \<longrightarrow>
        safe_get_nested data (key # keys) dflt = dflt)
   \<and> (map_of d key = Some PNone \<longrightarrow> safe_get_nested (PDict d) [key] dflt = dflt)
   \<and> (safe_get_nested data (key # keys) dflt = PNone \<longrightarrow> dflt = PNone)"
proof -
  have main: "safe_get_nested data (key # keys) dflt =
     (case path_lookup data (key # keys) of
        None \<Rightarrow> dflt
      | Some w \<Rightarrow> if w = PNone then dflt else w)"
    by (rule safe_get_nested_path_lookup) simp
  have single: "map_of d key = Some PNone \<longrightarrow> safe_get_nested (PDict d) [key] dflt = dflt"
    by (simp add: dict_get_def)
  from main single show ?thesis
    by (auto split: option.splits if_splits)
qed

theorem safe_get_nested_null_yields_default_witness:
  "path_lookup (PDict [(''level1'', PDict [(''level2'', PNone)])]) [''level1'', ''level2'']
     = Some PNone
   \<and> safe_get_nested (PDict [(''level1'', PDict [(''level2'', PNone)])])
        [''level1'', ''level2''] (PStr ''default'') = PStr ''default''
   \<and> map_of [(''level1'', PNone)] ''level1'' = Some PNone
   \<and> safe_get_nested (PDict [(''level1'', PNone)]) [''level1''] (PStr ''default'')
        = PStr ''default''
   \<and> safe_get_nested (PDict [(''level1'', PNone)]) [''level1''] PNone = PNone"
  using safe_get_nested_null_yields_default
      [of "PDict [(''level1'', PDict [(''level2'', PNone)])]" "''level1''" "[''level2'']"
          "PStr ''default''" "[(''level1'', PNone)]"]
    safe_get_nested_null_yields_default
      [of "PDict [(''level1'', PNone)]" "''level1''" "[]" PNone "[(''level1'', PNone)]"]
  by (simp add: dict_get_def)

section \<open>Configuration\<close>

text \<open>
  Claim C9. For every configuration whose credential is one of the two variants,
  \<open>get_token\<close> returns the token of a token credential and the access token of an
  OAuth2 credential, and \<open>get_auth_headers\<close> returns a dictionary with exactly three
  entries: \<open>Authorization\<close>, whose value is \<open>"Bearer "\<close> followed by that token,
  \<open>Notion-Version\<close>, the configured API version, and \<open>Content-Type\<close>,
  \<open>application/json\<close>.
\<close>

theorem auth_headers_three_entries:
  assumes "credentials cfg = TokenCredentials tok
           \<or> credentials cfg = OAuth2Credentials cid sec tok rt"
  shows "get_token cfg = Inr tok
         \<and> get_auth_headers cfg =
             Inr [(''Authorization'', ''Bearer '' @ tok),
                  (''Notion-Version'', api_version cfg),
                  (''Content-Type'', ''application/json'')]
         \<and> (\<exists>hs. get_auth_headers cfg = Inr hs \<and> length hs = 3 \<and> distinct (map fst hs)
               \<and> fst ` set hs = {''Authorization'', ''Notion-Version'', ''Content-Type''}
               \<and> map_of hs ''Authorization'' = Some (''Bearer '' @ tok)
               \<and> map_of hs ''Notion-Version'' = Some (api_version cfg)
               \<and> map_of hs ''Content-Type'' = Some ''application/json'')"
  using assms by (auto simp: get_token_def get_auth_headers_def)

theorem auth_headers_three_entries_witness:
  "get_token \<lparr>credentials = TokenCredentials ''secret_abc'', api_version = ''2022-06-28'',
       cfg_max_retries = 5, base_retry_delay = 1, max_retry_delay = 60, page_size = 100,
       request_timeout = 60, fetch_blocks = True, max_block_depth = 5\<rparr> = Inr ''secret_abc''
   \<and> get_auth_headers \<lparr>credentials = TokenCredentials ''secret_abc'',
       api_version = ''2022-06-28'', cfg_max_retries = 5, base_retry_delay = 1,
       max_retry_delay = 60, page_size = 100, request_timeout = 60, fetch_blocks = True,
       max_block_depth = 5\<rparr>
       = Inr [(''Authorization'', ''Bearer secret_abc''), (''Notion-Version'', ''2022-06-28''),
              (''Content-Type'', ''application/json'')]
   \<and> get_auth_headers \<lparr>credentials = OAuth2Credentials ''id'' ''sec'' ''tok123'' None,
       api_version = ''2022-06-28'', cfg_max_retries = 5, base_retry_delay = 1,
       max_retry_delay = 60, page_size = 100, request_timeout = 60, fetch_blocks = True,
       max_block_depth = 5\<rparr>
       = Inr [(''Authorization'', ''Bearer tok123''), (''Notion-Version'', ''2022-06-28''),
              (''Content-Type'', ''application/json'')]"
  using auth_headers_three_entries [of "\<lparr>credentials = TokenCredentials ''secret_abc'',
       api_version = ''2022-06-28'', cfg_max_retries = 5, base_retry_delay = 1,
       max_retry_delay = 60, page_size = 100, request_timeout = 60, fetch_blocks = True,
       max_block_depth = 5\<rparr>" "''secret_abc''"]
    auth_headers_three_entries [of "\<lparr>credentials = OAuth2Credentials ''id'' ''sec'' ''tok123'' None,
       api_version = ''2022-06-28'', cfg_max_retries = 5, base_retry_delay = 1,
       max_retry_delay = 60, page_size = 100, request_timeout = 60, fetch_blocks = True,
       max_block_depth = 5\<rparr>" "''tok123''" "''id''" "''sec''" None]
  by simp

section \<open>Pagination\<close>

lemma page_of_SomeD:
  assumes "page_of data = Some pg"
  obtains d where "data = PDict d"
    and "py_iter (dict_get_default d ''results'' (PList [])) = Inr (page_results pg)"
    and "truthy (dict_get_default d ''has_more'' (PBool False)) \<and> truthy (dict_get d ''next_cursor'')
          \<longleftrightarrow> has_next pg"
    and "dict_get d ''next_cursor'' = page_cursor pg"
proof -
  from assms obtain d where d: "data = PDict d"
    by (cases data) (simp_all add: page_of_def)
  from assms d obtain rs hm where r: "map_of d ''results'' = Some (PList rs)"
    and h: "map_of d ''has_more'' = Some (PBool hm)"
    by (simp add: page_of_def split: option.splits pyval.splits)
  from assms d r h have nc: "(map_of d ''next_cursor'' = None \<and> pg = (rs, hm, None))
      \<or> (map_of d ''next_cursor'' = Some PNone \<and> pg = (rs, hm, None))
      \<or> (\<exists>c. map_of d ''next_cursor'' = Some (PStr c) \<and> pg = (rs, hm, Some c))"
    by (simp add: page_of_def split: option.splits pyval.splits)
  show thesis
  proof (rule that [OF d])
    show "py_iter (dict_get_default d ''results'' (PList [])) = Inr (page_results pg)"
      using nc r by (auto simp: dict_get_default_def)
    show "truthy (dict_get_default d ''has_more'' (PBool False)) \<and> truthy (dict_get d ''next_cursor'')
          \<longleftrightarrow> has_next pg"
      using nc h by (auto simp: dict_get_default_def dict_get_def)
    show "dict_get d ''next_cursor'' = page_cursor pg"
      using nc by (auto simp: dict_get_def)
  qed
qed

lemma paginate_from_page:
  assumes "page_of data = Some pg"
  shows "paginate_from ps ep m b q c (Inr data # rest) =
     (if has_next pg
      then (case paginate_from ps ep m b q (page_cursor pg) rest of
              (evs, out) \<Rightarrow> (Request (page_request ps ep m b q c) # map Yield (page_results pg) @ evs, out))
      else (Request (page_request ps ep m b q c) # map Yield (page_results pg), Returned))"
proof -
  from assms obtain d where d: "data = PDict d"
    and it: "py_iter (dict_get_default d ''results'' (PList [])) = Inr (page_results pg)"
    and hn: "truthy (dict_get_default d ''has_more'' (PBool False)) \<and> truthy (dict_get d ''next_cursor'')
          \<longleftrightarrow> has_next pg"
    and cur: "dict_get d ''next_cursor'' = page_cursor pg"
    by (rule page_of_SomeD)
  show ?thesis
  proof (cases "has_next pg")
    case True
    with hn have "truthy (dict_get_default d ''has_more'' (PBool False))"
      and "truthy (page_cursor pg)" by (simp_all add: cur)
    then show ?thesis using True
      by (simp add: d it cur Let_def split: prod.splits)
  next
    case False
    with hn have "\<not> truthy (dict_get_default d ''has_more'' (PBool False))
        \<or> \<not> truthy (page_cursor pg)" by (simp add: cur)
    then show ?thesis using False
      by (auto simp add: d it cur Let_def)
  qed
qed

lemma yielded_append: "yielded (xs @ ys) = yielded xs @ yielded ys"
  by (induction xs rule: yielded.induct) auto
lemma requested_append: "requested (xs @ ys) = requested xs @ requested ys"
  by (induction xs rule: requested.induct) auto
lemma yielded_map_Yield: "yielded (map Yield xs) = xs"
  by (induction xs) auto
lemma requested_map_Yield: "requested (map Yield xs) = []"
  by (induction xs) auto

lemma paginate_from_pages:
  assumes "map page_of datas = map Some pages"
  shows "yielded (fst (paginate_from ps ep m b q c (map Inr datas)))
           = concat (map page_results (take (Suc (length (takeWhile has_next pages))) pages))
       \<and> requested (fst (paginate_from ps ep m b q c (map Inr datas)))
           = map (page_request ps ep m b q)
               (take (Suc (length (takeWhile has_next pages))) (c # map page_cursor pages))
       \<and> snd (paginate_from ps ep m b q c (map Inr datas))
           = (if length (takeWhile has_next pages) < length pages then Returned else AwaitingResponse)"
  using assms
proof (induction datas arbitrary: pages c)
  case Nil
  then show ?case by simp
next
  case (Cons data datas)
  then obtain pg pages' where pages: "pages = pg # pages'" and pg: "page_of data = Some pg"
    and rest: "map page_of datas = map Some pages'"
    by (cases pages) auto
  note IH = Cons.IH [OF rest, of "page_cursor pg"]
  have step: "paginate_from ps ep m b q c (map Inr (data # datas)) =
     (if has_next pg
      then (case paginate_from ps ep m b q (page_cursor pg) (map Inr datas) of
              (evs, out) \<Rightarrow> (Request (page_request ps ep m b q c) # map Yield (page_results pg) @ evs, out))
      else (Request (page_request ps ep m b q c) # map Yield (page_results pg), Returned))"
    using paginate_from_page [OF pg, of ps ep m b q c "map Inr datas"] by simp
  show ?case
  proof (cases "has_next pg")
    case True
    obtain evs out where r: "paginate_from ps ep m b q (page_cursor pg) (map Inr datas) = (evs, out)"
      by (cases "paginate_from ps ep m b q (page_cursor pg) (map Inr datas)")
    from True IH show ?thesis
      unfolding step pages r
      by (simp add: yielded_append requested_append yielded_map_Yield requested_map_Yield)
  next
    case False
    then show ?thesis
      unfolding step pages
      by (simp add: yielded_map_Yield requested_map_Yield)
  qed
qed

lemma paginate_from_trace:
  assumes "map page_of datas = map Some pages"
  shows "fst (paginate_from ps ep m b q c (map Inr datas))
           = concat (map (\<lambda>(cur, pg). Request (page_request ps ep m b q cur) # map Yield (page_results pg))
               (zip (c # map page_cursor pages)
                    (take (Suc (length (takeWhile has_next pages))) pages)))
             @ (if length (takeWhile has_next pages) < length pages then []
                else [Request (page_request ps ep m b q (last (c # map page_cursor pages)))])"
  using assms
proof (induction datas arbitrary: pages c)
  case Nil
  then show ?case by simp
next
  case (Cons data datas)
  then obtain pg pages' where pages: "pages = pg # pages'" and pg: "page_of data = Some pg"
    and rest: "map page_of datas = map Some pages'"
    by (cases pages) auto
  note IH = Cons.IH [OF rest, of "page_cursor pg"]
  have step: "paginate_from ps ep m b q c (map Inr (data # datas)) =
     (if has_next pg
      then (case paginate_from ps ep m b q (page_cursor pg) (map Inr datas) of
              (evs, out) \<Rightarrow> (Request (page_request ps ep m b q c) # map Yield (page_results pg) @ evs, out))
      else (Request (page_request ps ep m b q c) # map Yield (page_results pg), Returned))"
    using paginate_from_page [OF pg, of ps ep m b q c "map Inr datas"] by simp
  show ?case
  proof (cases "has_next pg")
    case True
    obtain evs out where r: "paginate_from ps ep m b q (page_cursor pg) (map Inr datas) = (evs, out)"
      by (cases "paginate_from ps ep m b q (page_cursor pg) (map Inr datas)")
    from True IH show ?thesis
      unfolding step pages r
      by simp
  next
    case False
    then show ?thesis
      unfolding step pages
      by simp
  qed
qed

text \<open>
  Claim C5. For every sequence of pages each shaped \<open>{results, has_more, next_cursor}\<close>,
  given as the responses to the successive requests, the pagination engine fetches the
  pages up to and including the first one that does not have both \<open>has_more\<close> true and
  a present, non-empty \<open>next_cursor\<close> (\<open>k\<close> counts the pages before it), and stops
  there, also when that page has \<open>has_more\<close> true and no cursor. It yields every item
  of every fetched page's results in order, each page's items right after the request
  that fetched it; the first request carries no start cursor and each further one the
  previous page's \<open>next_cursor\<close>. If every given page has a successor, the engine has
  fetched them all and has sent one more request.
\<close>

theorem paginate_pages:
  assumes "map page_of datas = map Some pages"
  shows "(let run = paginate ps ep m b q (map Inr datas);
              k = length (takeWhile has_next pages);
              cursors = PNone # map page_cursor pages
          in yielded (fst run) = concat (map page_results (take (Suc k) pages))
           \<and> requested (fst run) = map (page_request ps ep m b q) (take (Suc k) cursors)
           \<and> length (requested (fst run)) = Suc k
           \<and> snd run = (if k < length pages then Returned else AwaitingResponse)
           \<and> fst run =
               concat (map (\<lambda>(cur, pg). Request (page_request ps ep m b q cur)
                                        # map Yield (page_results pg))
                        (zip cursors (take (Suc k) pages)))
               @ (if k < length pages then []
                  else [Request (page_request ps ep m b q (last cursors))]))"
proof -
  have "length (takeWhile has_next pages) \<le> length pages"
    by (rule length_takeWhile_le)
  then show ?thesis
    using paginate_from_pages [OF assms, of ps ep m b q PNone]
      paginate_from_trace [OF assms, of ps ep m b q PNone]
    by (simp add: paginate_def Let_def)
qed

theorem paginate_pages_witness:
  "map page_of [sample_page_1, sample_page_2]
     = map Some [([PStr ''u1''], True, Some ''cursor-2''),
                 ([PStr ''u2'', PStr ''u3''], False, None)]
   \<and> yielded (fst (paginate 100 ''/users'' ''GET'' None None
                     (map Inr [sample_page_1, sample_page_2])))
       = [PStr ''u1'', PStr ''u2'', PStr ''u3'']
   \<and> length (requested (fst (paginate 100 ''/users'' ''GET'' None None
                     (map Inr [sample_page_1, sample_page_2])))) = 2
   \<and> snd (paginate 100 ''/users'' ''GET'' None None
             (map Inr [sample_page_1, sample_page_2])) = Returned
   \<and> map page_of [sample_page_no_cursor, sample_page_2]
       = map Some [([PStr ''u4''], True, None), ([PStr ''u2'', PStr ''u3''], False, None)]
   \<and> yielded (fst (paginate 100 ''/users'' ''GET'' None None
                     (map Inr [sample_page_no_cursor, sample_page_2]))) = [PStr ''u4'']
   \<and> length (requested (fst (paginate 100 ''/users'' ''GET'' None None
                     (map Inr [sample_page_no_cursor, sample_page_2])))) = 1"
proof -
  have a: "map page_of [sample_page_1, sample_page_2]
     = map Some [([PStr ''u1''], True, Some ''cursor-2''),
                 ([PStr ''u2'', PStr ''u3''], False, None)]"
    by (simp add: page_of_def sample_page_1_def sample_page_2_def)
  have b: "map page_of [sample_page_no_cursor, sample_page_2]
       = map Some [([PStr ''u4''], True, None), ([PStr ''u2'', PStr ''u3''], False, None)]"
    by (simp add: page_of_def sample_page_no_cursor_def sample_page_2_def)
  show ?thesis
    using a b paginate_pages [OF a, of 100 "''/users''" "''GET''" None None]
      paginate_pages [OF b, of 100 "''/users''" "''GET''" None None]
    by (simp add: Let_def)
qed

section \<open>Recursive block fetch\<close>

lemma map_of_dict_set: "map_of (dict_set d k v) k' = (if k' = k then Some v else map_of d k')"
  by (induction d k v rule: dict_set.induct) auto

lemma tag_block_lookup:
  "map_of (tag_block b d p) k =
     (if k = ''_parent_id'' then Some p else if k = ''_depth'' then Some (PInt d) else map_of b k)"
  by (simp add: tag_block_def map_of_dict_set)

lemma tag_block_get [simp]:
  "dict_get (tag_block b d p) ''_depth'' = PInt d"
  "dict_get (tag_block b d p) ''_parent_id'' = p"
  "dict_get (tag_block b d p) ''has_children'' = dict_get b ''has_children''"
  "map_of (tag_block b d p) ''id'' = map_of b ''id''"
  by (simp_all add: dict_get_def tag_block_lookup)

























section \<open>Incremental inclusion\<close>






section \<open>Authentication\<close>













section \<open>Connection check\<close>

lemma connection_status_message_status [simp]:
  "status (connection_status_message st msg) = st"
  by (simp add: connection_status_message_def)

lemma connection_status_message_text [simp]:
  "m \<noteq> [] \<Longrightarrow> message (connection_status_message st (Some m)) = Some m"
  by (simp add: connection_status_message_def)








end
